theory Spec2Isabelle
  imports Main "HOL-Library.Word" "HOL-Library.Sublist"
begin

section \<open>Data model of register.go\<close>

text \<open>
  Byte slices are lists of 8-bit words. \<open>crypto.Hash\<close> is Go's \<open>type Hash uint\<close>.
  Public keys are the values the Go pointers refer to; a nil pointer in a credential
  slice is outside this model. Of the types declared outside register.go, \<open>header\<close> has
  the algorithm identifier that \<open>match\<close> looks up and the \<open>Kid\<close> that \<open>Check\<close> copies, and
  \<open>Claims\<close> has the \<open>KeyID\<close> that \<open>Check\<close> sets; \<open>Raw\<close> stands for the rest of the claims,
  which register.go never reads. The count \<open>n\<close> of \<open>LoadPEM\<close> is a natural number: it
  starts at 0 and grows by one for each block, of which a buffer holds fewer than the
  range of Go's \<open>int\<close>.
\<close>

type_synonym bytes = "8 word list"

type_synonym crypto_Hash = nat

record rsa_PublicKey =
  rsa_N :: int
  rsa_E :: int

record ecdsa_PublicKey =
  ec_Curve :: nat
  ec_X :: int
  ec_Y :: int

text \<open>A private key embeds its public key and adds the private component \<open>D\<close>.\<close>

record rsa_PrivateKey =
  rsa_PublicKey_of :: rsa_PublicKey
  rsa_D :: int

record ecdsa_PrivateKey =
  ecdsa_PublicKey_of :: ecdsa_PublicKey
  ec_D :: int

text \<open>
  The dynamic type of an \<open>interface{}\<close> key value, as \<open>add\<close> switches on it. \<open>OtherKey\<close>
  carries the \<open>%T\<close> name of any other type.
\<close>

datatype key =
    ECDSAPublicKey ecdsa_PublicKey
  | RSAPublicKey rsa_PublicKey
  | ECDSAPrivateKey ecdsa_PrivateKey
  | RSAPrivateKey rsa_PrivateKey
  | OtherKey string

text \<open>
  Errors. \<open>ErrAlgUnk\<close>, \<open>ErrSigMiss\<close> and \<open>errUnencryptedPEM\<close> are the package's error
  variables; the two \<open>fmt.Errorf\<close> results carry their argument; an error returned by
  a standard-library call keeps the name of the call it came from.
\<close>

datatype error =
    ErrAlgUnk
  | ErrSigMiss
  | errUnencryptedPEM
  | errUnknownPEMType string
  | errUnsupportedKeyType string
  | DecryptPEMBlockError string
  | ParseError string
  | TokenError string

record KeyRegister =
  ECDSAs :: "ecdsa_PublicKey list"
  RSAs :: "rsa_PublicKey list"
  Secrets :: "bytes list"

record header =
  Alg :: string
  Kid :: string

record Claims =
  Raw :: bytes
  KeyID :: string

record pem_Block =
  Type :: string
  Headers :: "(string \<times> string) list"
  Bytes :: bytes

record x509_Certificate =
  PublicKey :: key

text \<open>The three families whose verifier closure \<open>Check\<close> may assign to \<open>verifySig\<close>.\<close>

datatype family = HMAC | RSA | ECDSA

subsection \<open>Functions used by register.go and defined elsewhere\<close>

text \<open>
  \<open>parseHeader\<close>, \<open>header.match\<close>, the three algorithm tables and
  \<open>verifyAndParseClaims\<close> belong to the package but not to register.go; the
  remaining fields are calls into Go's standard library. All are parameters: every
  theorem below holds for whatever they compute.
  \<^item> \<open>hmac_digest h secret content\<close> is the keyed digest that \<open>hmac.New(h.New, secret)\<close>
    holds after \<open>Write(content)\<close>; \<open>hash_digest h content\<close> is the plain digest.
  \<^item> \<open>rsa_VerifyPKCS1v15\<close> returns \<open>None\<close> for Go's nil error.
  \<^item> \<open>pem_Decode\<close> returns \<open>None\<close> for a nil block, else the block and the remainder.
\<close>

record deps =
  parseHeader :: "bytes \<Rightarrow> error + (header \<times> bytes)"
  match :: "header \<Rightarrow> (string \<rightharpoonup> crypto_Hash) \<Rightarrow> error + crypto_Hash"
  HMACAlgs :: "string \<rightharpoonup> crypto_Hash"
  RSAAlgs :: "string \<rightharpoonup> crypto_Hash"
  ECDSAAlgs :: "string \<rightharpoonup> crypto_Hash"
  verifyAndParseClaims ::
    "bytes \<Rightarrow> bytes \<Rightarrow> crypto_Hash \<Rightarrow> (bytes \<Rightarrow> bytes \<Rightarrow> crypto_Hash \<Rightarrow> error option)
      \<Rightarrow> error + Claims"
  hmac_digest :: "crypto_Hash \<Rightarrow> bytes \<Rightarrow> bytes \<Rightarrow> bytes"
  hash_digest :: "crypto_Hash \<Rightarrow> bytes \<Rightarrow> bytes"
  rsa_VerifyPKCS1v15 :: "rsa_PublicKey \<Rightarrow> crypto_Hash \<Rightarrow> bytes \<Rightarrow> bytes \<Rightarrow> string option"
  ecdsa_Verify :: "ecdsa_PublicKey \<Rightarrow> bytes \<Rightarrow> int \<Rightarrow> int \<Rightarrow> bool"
  pem_Decode :: "bytes \<Rightarrow> (pem_Block \<times> bytes) option"
  x509_IsEncryptedPEMBlock :: "pem_Block \<Rightarrow> bool"
  x509_DecryptPEMBlock :: "pem_Block \<Rightarrow> bytes \<Rightarrow> string + bytes"
  x509_ParseCertificates :: "bytes \<Rightarrow> string + x509_Certificate list"
  x509_ParsePKIXPublicKey :: "bytes \<Rightarrow> string + key"
  x509_ParseECPrivateKey :: "bytes \<Rightarrow> string + ecdsa_PrivateKey"
  x509_ParsePKCS1PrivateKey :: "bytes \<Rightarrow> string + rsa_PrivateKey"

subsection \<open>Standard-library values with a fixed meaning\<close>

text \<open>\<open>hmac.Equal\<close> reports whether two MACs are the same byte sequence.\<close>

definition hmac_Equal :: "bytes \<Rightarrow> bytes \<Rightarrow> bool" where
  "hmac_Equal mac1 mac2 = (mac1 = mac2)"

text \<open>\<open>digest.Sum(b)\<close> appends the digest to \<open>b\<close> and returns the result.\<close>

definition Sum :: "bytes \<Rightarrow> bytes \<Rightarrow> bytes" where
  "Sum digest b = b @ digest"

text \<open>\<open>big.NewInt(0).SetBytes(buf)\<close>: the big-endian unsigned integer of \<open>buf\<close>.\<close>

definition SetBytes :: "bytes \<Rightarrow> int" where
  "SetBytes buf = foldl (\<lambda>acc b. acc * 256 + uint b) 0 buf"

section \<open>KeyRegister.Check\<close>

subsection \<open>The three verifier closures (lines 34-43, 47-57, 61-73)\<close>

text \<open>Each loop ranges over one credential slice and returns at the first hit.\<close>

fun hmacLoop :: "deps \<Rightarrow> bytes list \<Rightarrow> bytes \<Rightarrow> bytes \<Rightarrow> crypto_Hash \<Rightarrow> error option" where
  "hmacLoop d [] content sig hash = Some ErrSigMiss"
| "hmacLoop d (secret # secrets) content sig hash =
     (if hmac_Equal sig (Sum (hmac_digest d hash secret content) (drop (length sig) sig))
      then None
      else hmacLoop d secrets content sig hash)"

fun rsaLoop :: "deps \<Rightarrow> rsa_PublicKey list \<Rightarrow> crypto_Hash \<Rightarrow> bytes \<Rightarrow> bytes \<Rightarrow> error option" where
  "rsaLoop d [] hash digestSum sig = Some ErrSigMiss"
| "rsaLoop d (key # keys) hash digestSum sig =
     (case rsa_VerifyPKCS1v15 d key hash digestSum sig of
        None \<Rightarrow> None
      | Some err \<Rightarrow> rsaLoop d keys hash digestSum sig)"

fun ecdsaLoop :: "deps \<Rightarrow> ecdsa_PublicKey list \<Rightarrow> bytes \<Rightarrow> int \<Rightarrow> int \<Rightarrow> error option" where
  "ecdsaLoop d [] digestSum r s = Some ErrSigMiss"
| "ecdsaLoop d (key # keys) digestSum r s =
     (if ecdsa_Verify d key digestSum r s then None else ecdsaLoop d keys digestSum r s)"

text \<open>
  \<open>verifySig d reg fam\<close> is the closure that \<open>Check\<close> assigns in the branch of family
  \<open>fam\<close>; it captures the register.
\<close>

fun verifySig ::
  "deps \<Rightarrow> KeyRegister \<Rightarrow> family \<Rightarrow> bytes \<Rightarrow> bytes \<Rightarrow> crypto_Hash \<Rightarrow> error option" where
  "verifySig d reg HMAC content sig hash = hmacLoop d (Secrets reg) content sig hash"
| "verifySig d reg RSA content sig hash =
     (let digestSum = Sum (hash_digest d hash content) (drop (length sig) sig)
      in rsaLoop d (RSAs reg) hash digestSum sig)"
| "verifySig d reg ECDSA content sig hash =
     (let r = SetBytes (take (length sig div 2) sig);
          s = SetBytes (drop (length sig div 2) sig);
          digestSum = Sum (hash_digest d hash content) (take 0 sig)
      in ecdsaLoop d (ECDSAs reg) digestSum r s)"

subsection \<open>Family selection (lines 31-76)\<close>

text \<open>
  The if-chain that assigns \<open>hash\<close> and \<open>verifySig\<close>, or returns the error of
  \<open>header.match\<close>. The result names the family whose closure was assigned.
\<close>

definition selectVerifier :: "deps \<Rightarrow> header \<Rightarrow> error + (crypto_Hash \<times> family)" where
  "selectVerifier d hdr =
     (case match d hdr (HMACAlgs d) of
        Inr hash \<Rightarrow> Inr (hash, HMAC)
      | Inl err \<Rightarrow>
          if err \<noteq> ErrAlgUnk then Inl err
          else (case match d hdr (RSAAlgs d) of
                  Inr hash \<Rightarrow> Inr (hash, RSA)
                | Inl err \<Rightarrow>
                    if err \<noteq> ErrAlgUnk then Inl err
                    else (case match d hdr (ECDSAAlgs d) of
                            Inr hash \<Rightarrow> Inr (hash, ECDSA)
                          | Inl err \<Rightarrow> Inl err)))"

subsection \<open>Check (lines 25-85)\<close>

text \<open>
  The method has a pointer receiver, so the model returns the register after the call
  next to the method's result.
\<close>

definition Check :: "deps \<Rightarrow> KeyRegister \<Rightarrow> bytes \<Rightarrow> KeyRegister \<times> (error + Claims)" where
  "Check d reg token =
     (case parseHeader d token of
        Inl err \<Rightarrow> (reg, Inl err)
      | Inr (hdr, buf) \<Rightarrow>
          (case selectVerifier d hdr of
             Inl err \<Rightarrow> (reg, Inl err)
           | Inr (hash, fam) \<Rightarrow>
               (case verifyAndParseClaims d token buf hash (verifySig d reg fam) of
                  Inl err \<Rightarrow> (reg, Inl err)
                | Inr claims \<Rightarrow> (reg, Inr (claims\<lparr>KeyID := Kid hdr\<rparr>)))))"

section \<open>KeyRegister.LoadPEM\<close>

subsection \<open>add (lines 153-163)\<close>

text \<open>The \<open>%T\<close> of a key value, for the error text of the default case.\<close>

fun typeName :: "key \<Rightarrow> string" where
  "typeName (ECDSAPublicKey k) = ''*ecdsa.PublicKey''"
| "typeName (RSAPublicKey k) = ''*rsa.PublicKey''"
| "typeName (ECDSAPrivateKey k) = ''*ecdsa.PrivateKey''"
| "typeName (RSAPrivateKey k) = ''*rsa.PrivateKey''"
| "typeName (OtherKey t) = t"

fun add :: "KeyRegister \<Rightarrow> key \<Rightarrow> KeyRegister \<times> error option" where
  "add r (ECDSAPublicKey t) = (r\<lparr>ECDSAs := ECDSAs r @ [t]\<rparr>, None)"
| "add r (RSAPublicKey t) = (r\<lparr>RSAs := RSAs r @ [t]\<rparr>, None)"
| "add r t = (r, Some (errUnsupportedKeyType (typeName t)))"

subsection \<open>The loop body (lines 101-147)\<close>

text \<open>
  Lines 101-108: the decryption gate. The result is the block whose \<open>Bytes\<close> the switch
  reads, or the error the loop returns.
\<close>

definition openBlock :: "deps \<Rightarrow> bytes \<Rightarrow> pem_Block \<Rightarrow> error + pem_Block" where
  "openBlock d password block =
     (if x509_IsEncryptedPEMBlock d block
      then (case x509_DecryptPEMBlock d block password of
              Inl err \<Rightarrow> Inl (DecryptPEMBlockError err)
            | Inr plain \<Rightarrow> Inr (block\<lparr>Bytes := plain\<rparr>))
      else if length password \<noteq> 0 then Inl errUnencryptedPEM
      else Inr block)"

text \<open>Lines 116-120: the certificates of one block, added in order until one fails.\<close>

fun addCerts :: "KeyRegister \<Rightarrow> x509_Certificate list \<Rightarrow> KeyRegister \<times> error option" where
  "addCerts r [] = (r, None)"
| "addCerts r (c # certs) =
     (case add r (PublicKey c) of
        (r', Some err) \<Rightarrow> (r', Some err)
      | (r', None) \<Rightarrow> addCerts r' certs)"

text \<open>Lines 110-147: the switch on the block type.\<close>

definition switchType :: "deps \<Rightarrow> KeyRegister \<Rightarrow> pem_Block \<Rightarrow> KeyRegister \<times> error option" where
  "switchType d r block =
     (if Type block = ''CERTIFICATE'' then
        (case x509_ParseCertificates d (Bytes block) of
           Inl err \<Rightarrow> (r, Some (ParseError err))
         | Inr certs \<Rightarrow> addCerts r certs)
      else if Type block = ''PUBLIC KEY'' then
        (case x509_ParsePKIXPublicKey d (Bytes block) of
           Inl err \<Rightarrow> (r, Some (ParseError err))
         | Inr k \<Rightarrow> add r k)
      else if Type block = ''EC PRIVATE KEY'' then
        (case x509_ParseECPrivateKey d (Bytes block) of
           Inl err \<Rightarrow> (r, Some (ParseError err))
         | Inr k \<Rightarrow> (r\<lparr>ECDSAs := ECDSAs r @ [ecdsa_PublicKey_of k]\<rparr>, None))
      else if Type block = ''RSA PRIVATE KEY'' then
        (case x509_ParsePKCS1PrivateKey d (Bytes block) of
           Inl err \<Rightarrow> (r, Some (ParseError err))
         | Inr k \<Rightarrow> (r\<lparr>RSAs := RSAs r @ [rsa_PublicKey_of k]\<rparr>, None))
      else (r, Some (errUnknownPEMType (Type block))))"

definition loadBlock ::
  "deps \<Rightarrow> KeyRegister \<Rightarrow> bytes \<Rightarrow> pem_Block \<Rightarrow> KeyRegister \<times> error option" where
  "loadBlock d r password block =
     (case openBlock d password block of
        Inl err \<Rightarrow> (r, Some err)
      | Inr block' \<Rightarrow> switchType d r block')"

subsection \<open>LoadPEM (lines 93-151)\<close>

text \<open>
  The loop ends when \<open>pem.Decode\<close> finds no block or a block fails. Nothing in
  register.go bounds it, so the model is a partial function: \<open>None\<close> stands for a
  loop that never returns. The named result \<open>err\<close> is nil whenever the loop head is
  reached (its one assignment, line 102, returns when it is not nil), so the return of
  line 97 carries no error. The result is the register after the call, \<open>n\<close> and \<open>err\<close>.
\<close>

partial_function (option) LoadPEM_loop ::
  "deps \<Rightarrow> KeyRegister \<Rightarrow> bytes \<Rightarrow> bytes \<Rightarrow> nat \<Rightarrow> (KeyRegister \<times> nat \<times> error option) option"
where
  "LoadPEM_loop d r data password n =
     (case pem_Decode d data of
        None \<Rightarrow> Some (r, n, None)
      | Some (block, remainder) \<Rightarrow>
          (case loadBlock d r password block of
             (r', Some err) \<Rightarrow> Some (r', n, Some err)
           | (r', None) \<Rightarrow> LoadPEM_loop d r' remainder password (Suc n)))"

declare LoadPEM_loop.simps [code]

definition LoadPEM ::
  "deps \<Rightarrow> KeyRegister \<Rightarrow> bytes \<Rightarrow> bytes \<Rightarrow> (KeyRegister \<times> nat \<times> error option) option" where
  "LoadPEM d r data password = LoadPEM_loop d r data password 0"

section \<open>Notions used to state the properties\<close>

text \<open>
  Modelled from the spec: \<open>header.match\<close> is not in register.go. Of its contract
  (section 4.1: it returns the hash the family's closed table gives the identifier, and
  never a default) the theorems use one half: a hash is returned only for an
  identifier that is in the table it was given.
\<close>

definition match_sound :: "deps \<Rightarrow> bool" where
  "match_sound d =
     (\<forall>hdr algs hash. match d hdr algs = Inr hash \<longrightarrow> algs (Alg hdr) = Some hash)"

text \<open>
  \<open>pem_blocks d data bs rest\<close>: successive calls of \<open>pem.Decode\<close>, starting at \<open>data\<close>,
  yield the blocks \<open>bs\<close> in this order and leave \<open>rest\<close>.
\<close>

fun pem_blocks :: "deps \<Rightarrow> bytes \<Rightarrow> pem_Block list \<Rightarrow> bytes \<Rightarrow> bool" where
  "pem_blocks d data [] rest = (rest = data)"
| "pem_blocks d data (b # bs) rest =
     (case pem_Decode d data of
        None \<Rightarrow> False
      | Some (block, remainder) \<Rightarrow> block = b \<and> pem_blocks d remainder bs rest)"

text \<open>The loop body run over a list of blocks, stopping at the first error.\<close>

fun loadBlocks ::
  "deps \<Rightarrow> KeyRegister \<Rightarrow> bytes \<Rightarrow> pem_Block list \<Rightarrow> KeyRegister \<times> error option" where
  "loadBlocks d r password [] = (r, None)"
| "loadBlocks d r password (b # bs) =
     (case loadBlock d r password b of
        (r', Some err) \<Rightarrow> (r', Some err)
      | (r', None) \<Rightarrow> loadBlocks d r' password bs)"

text \<open>The number of credentials a register holds.\<close>

definition credentials :: "KeyRegister \<Rightarrow> nat" where
  "credentials r = length (ECDSAs r) + length (RSAs r) + length (Secrets r)"

text \<open>
  The number of credentials a block holds: the certificates of a certificate block,
  one for any other block.
\<close>

definition blockYield :: "deps \<Rightarrow> bytes \<Rightarrow> pem_Block \<Rightarrow> nat" where
  "blockYield d password block =
     (case openBlock d password block of
        Inl err \<Rightarrow> 0
      | Inr block' \<Rightarrow>
          if Type block' = ''CERTIFICATE'' then
            (case x509_ParseCertificates d (Bytes block') of
               Inl err \<Rightarrow> 0
             | Inr certs \<Rightarrow> length certs)
          else 1)"

text \<open>The key types that \<open>add\<close> accepts.\<close>

fun supported :: "key \<Rightarrow> bool" where
  "supported (ECDSAPublicKey t) = True"
| "supported (RSAPublicKey t) = True"
| "supported t = False"

text \<open>
  The number of credentials a block has appended when it fails: the certificates that
  were added before the one \<open>add\<close> refused, for a certificate block that fails in \<open>add\<close>;
  none for a block that fails at the decryption gate, in parsing or for its type.
\<close>

definition failedYield :: "deps \<Rightarrow> bytes \<Rightarrow> pem_Block \<Rightarrow> nat" where
  "failedYield d password block =
     (case openBlock d password block of
        Inl err \<Rightarrow> 0
      | Inr block' \<Rightarrow>
          if Type block' = ''CERTIFICATE'' then
            (case x509_ParseCertificates d (Bytes block') of
               Inl err \<Rightarrow> 0
             | Inr certs \<Rightarrow> length (takeWhile (\<lambda>c. supported (PublicKey c)) certs))
          else 0)"

text \<open>
  What \<open>pem.Decode\<close> promises of its second result: when a block is found, the remainder
  is shorter than the input.
\<close>

definition pem_Decode_consumes :: "deps \<Rightarrow> bool" where
  "pem_Decode_consumes d =
     (\<forall>data block remainder.
        pem_Decode d data = Some (block, remainder) \<longrightarrow> length remainder < length data)"

section \<open>A sample instance\<close>

text \<open>
  Small stand-ins for the parameters, on which the definitions above can be run. A
  sample PEM buffer is a sequence of blocks \<open>[type, encrypted, n, b1 .. bn]\<close>; a sample
  token is \<open>[alg, x, signature bytes]\<close>. A sample ECDSA key accepts the one signature
  \<open>(r, s) = (X, Y)\<close>, a sample RSA key the signature whose integer value is \<open>N\<close>, and
  the sample keyed digest is the secret followed by the content.
\<close>

definition sample_key :: "8 word \<Rightarrow> key" where
  "sample_key b =
     (if b = 0 then OtherKey ''ed25519.PublicKey''
      else if b < 128 then RSAPublicKey \<lparr>rsa_N = uint b, rsa_E = 65537\<rparr>
      else ECDSAPublicKey \<lparr>ec_Curve = 256, ec_X = uint b, ec_Y = 1\<rparr>)"

definition sample_type :: "8 word \<Rightarrow> string" where
  "sample_type t =
     (if t = 1 then ''CERTIFICATE''
      else if t = 2 then ''PUBLIC KEY''
      else if t = 3 then ''EC PRIVATE KEY''
      else if t = 4 then ''RSA PRIVATE KEY''
      else ''DSA PRIVATE KEY'')"

fun sample_Decode :: "bytes \<Rightarrow> (pem_Block \<times> bytes) option" where
  "sample_Decode (t # e # n # rest) =
     (if t = 0 \<or> length rest < unat n then None
      else Some (\<lparr>Type = sample_type t,
                  Headers = (if e = 0 then [] else [(''DEK-Info'', ''AES-128-CBC'')]),
                  Bytes = take (unat n) rest\<rparr>,
                 drop (unat n) rest))"
| "sample_Decode data = None"

fun sample_ECPrivateKey :: "bytes \<Rightarrow> string + ecdsa_PrivateKey" where
  "sample_ECPrivateKey [x, y, dd] =
     Inr \<lparr>ecdsa_PublicKey_of = \<lparr>ec_Curve = 256, ec_X = uint x, ec_Y = uint y\<rparr>, ec_D = uint dd\<rparr>"
| "sample_ECPrivateKey der = Inl ''x509: failed to parse EC private key''"

fun sample_PKCS1PrivateKey :: "bytes \<Rightarrow> string + rsa_PrivateKey" where
  "sample_PKCS1PrivateKey [n, dd] =
     Inr \<lparr>rsa_PublicKey_of = \<lparr>rsa_N = uint n, rsa_E = 65537\<rparr>, rsa_D = uint dd\<rparr>"
| "sample_PKCS1PrivateKey der = Inl ''x509: failed to parse RSA private key''"

fun sample_PKIXPublicKey :: "bytes \<Rightarrow> string + key" where
  "sample_PKIXPublicKey [b] = Inr (sample_key b)"
| "sample_PKIXPublicKey der = Inl ''asn1: syntax error''"

fun sample_parseHeader :: "bytes \<Rightarrow> error + (header \<times> bytes)" where
  "sample_parseHeader [] = Inl (TokenError ''jwt: missing parts'')"
| "sample_parseHeader (a # token) =
     Inr (\<lparr>Alg = (if a = 1 then ''HS256'' else if a = 2 then ''RS256''
                  else if a = 3 then ''ES256'' else ''none''),
           Kid = ''k1''\<rparr>, [])"

definition sample_deps :: deps where
  "sample_deps =
     \<lparr>parseHeader = sample_parseHeader,
      match = (\<lambda>hdr algs. case algs (Alg hdr) of None \<Rightarrow> Inl ErrAlgUnk | Some hash \<Rightarrow> Inr hash),
      HMACAlgs = [''HS256'' \<mapsto> 5],
      RSAAlgs = [''RS256'' \<mapsto> 5],
      ECDSAAlgs = [''ES256'' \<mapsto> 5],
      verifyAndParseClaims = (\<lambda>token buf hash verify.
         case verify (take 2 token) (drop 2 token) hash of
           Some err \<Rightarrow> Inl err
         | None \<Rightarrow> Inr \<lparr>Raw = take 2 token, KeyID = []\<rparr>),
      hmac_digest = (\<lambda>hash secret content. secret @ content),
      hash_digest = (\<lambda>hash content. content),
      rsa_VerifyPKCS1v15 = (\<lambda>key hash digestSum sig.
         if SetBytes sig = rsa_N key then None else Some ''crypto/rsa: verification error''),
      ecdsa_Verify = (\<lambda>key digestSum r s. r = ec_X key \<and> s = ec_Y key),
      pem_Decode = sample_Decode,
      x509_IsEncryptedPEMBlock = (\<lambda>block. map_of (Headers block) ''DEK-Info'' \<noteq> None),
      x509_DecryptPEMBlock = (\<lambda>block password.
         if password = [112, 119] then Inr (rev (Bytes block))
         else Inl ''x509: decryption password incorrect''),
      x509_ParseCertificates = (\<lambda>der. Inr (map (\<lambda>b. \<lparr>PublicKey = sample_key b\<rparr>) der)),
      x509_ParsePKIXPublicKey = sample_PKIXPublicKey,
      x509_ParseECPrivateKey = sample_ECPrivateKey,
      x509_ParsePKCS1PrivateKey = sample_PKCS1PrivateKey\<rparr>"

definition empty_register :: KeyRegister where
  "empty_register = \<lparr>ECDSAs = [], RSAs = [], Secrets = []\<rparr>"

text \<open>
  A second instance, with a decryption that cannot tell every wrong password, as Go
  documents of \<open>x509.DecryptPEMBlock\<close>. A password gives two key bytes; encryption adds
  the first to every byte of the plain text and appends a padding byte, 1 plus the
  second; decryption accepts the password when the padding byte comes out as 1. The
  sample parser of EC private keys here wants the DER sequence tag 48 in front.
\<close>

fun sample_keys :: "bytes \<Rightarrow> 8 word \<times> 8 word" where
  "sample_keys [] = (0, 0)"
| "sample_keys [a] = (a, 0)"
| "sample_keys (a # b # password) = (a, b)"

definition sample_Encrypt :: "bytes \<Rightarrow> bytes \<Rightarrow> bytes" where
  "sample_Encrypt password plain =
     map (\<lambda>b. b + fst (sample_keys password)) plain @ [1 + snd (sample_keys password)]"

definition sample_Decrypt :: "pem_Block \<Rightarrow> bytes \<Rightarrow> string + bytes" where
  "sample_Decrypt block password =
     (case rev (Bytes block) of
        [] \<Rightarrow> Inl ''x509: invalid padding''
      | pad # body \<Rightarrow>
          if pad - snd (sample_keys password) = 1
          then Inr (map (\<lambda>b. b - fst (sample_keys password)) (rev body))
          else Inl ''x509: decryption password incorrect'')"

fun sample_DER_ECPrivateKey :: "bytes \<Rightarrow> string + ecdsa_PrivateKey" where
  "sample_DER_ECPrivateKey [t, x, y, dd] =
     (if t = 48
      then Inr \<lparr>ecdsa_PublicKey_of = \<lparr>ec_Curve = 256, ec_X = uint x, ec_Y = uint y\<rparr>,
                ec_D = uint dd\<rparr>
      else Inl ''asn1: structure error'')"
| "sample_DER_ECPrivateKey der = Inl ''asn1: structure error''"

definition cipher_deps :: deps where
  "cipher_deps =
     sample_deps\<lparr>x509_DecryptPEMBlock := sample_Decrypt,
                 x509_ParseECPrivateKey := sample_DER_ECPrivateKey\<rparr>"

section \<open>Lemmas about the loops\<close>

lemma hmacLoop_result:
  "hmacLoop d secrets content sig hash =
     (if \<exists>secret\<in>set secrets. sig = hmac_digest d hash secret content
      then None else Some ErrSigMiss)"
  by (induction secrets) (auto simp: hmac_Equal_def Sum_def)

lemma rsaLoop_result:
  "rsaLoop d keys hash digestSum sig =
     (if \<exists>key\<in>set keys. rsa_VerifyPKCS1v15 d key hash digestSum sig = None
      then None else Some ErrSigMiss)"
  by (induction keys) (auto split: option.splits)

lemma ecdsaLoop_result:
  "ecdsaLoop d keys digestSum r s =
     (if \<exists>key\<in>set keys. ecdsa_Verify d key digestSum r s then None else Some ErrSigMiss)"
  by (induction keys) auto

lemma add_cases:
  "add r k = (r', e) \<Longrightarrow>
     (e = None \<and> (\<exists>t. k = ECDSAPublicKey t \<and> r' = r\<lparr>ECDSAs := ECDSAs r @ [t]\<rparr>)) \<or>
     (e = None \<and> (\<exists>t. k = RSAPublicKey t \<and> r' = r\<lparr>RSAs := RSAs r @ [t]\<rparr>)) \<or>
     (e = Some (errUnsupportedKeyType (typeName k)) \<and> r' = r)"
  by (cases k) auto

lemma add_grows:
  "add r k = (r', e) \<Longrightarrow>
     prefix (ECDSAs r) (ECDSAs r') \<and> prefix (RSAs r) (RSAs r') \<and> Secrets r' = Secrets r"
  by (cases k) auto

lemma add_error:
  "add r k = (r', Some err) \<Longrightarrow> (\<exists>t. err = errUnsupportedKeyType t)"
  by (cases k) auto

lemma addCerts_grows:
  "addCerts r certs = (r', e) \<Longrightarrow>
     prefix (ECDSAs r) (ECDSAs r') \<and> prefix (RSAs r) (RSAs r') \<and> Secrets r' = Secrets r"
proof (induction certs arbitrary: r)
  case Nil
  then show ?case by simp
next
  case (Cons c certs)
  obtain r1 e1 where a: "add r (PublicKey c) = (r1, e1)" by (cases "add r (PublicKey c)")
  note g = add_grows [OF a]
  show ?case
  proof (cases e1)
    case None
    with Cons.prems a have "addCerts r1 certs = (r', e)" by simp
    from Cons.IH [OF this] g show ?thesis by (auto intro: prefix_order.trans)
  next
    case (Some err)
    with Cons.prems a have "r' = r1" by simp
    with g show ?thesis by simp
  qed
qed

lemma addCerts_error:
  "addCerts r certs = (r', Some err) \<Longrightarrow> (\<exists>t. err = errUnsupportedKeyType t)"
proof (induction certs arbitrary: r)
  case Nil
  then show ?case by simp
next
  case (Cons c certs)
  obtain r1 e1 where a: "add r (PublicKey c) = (r1, e1)" by (cases "add r (PublicKey c)")
  show ?case
  proof (cases e1)
    case None
    with Cons.prems a have "addCerts r1 certs = (r', Some err)" by simp
    from Cons.IH [OF this] show ?thesis .
  next
    case (Some e)
    with Cons.prems a have "add r (PublicKey c) = (r1, Some err)" by simp
    then show ?thesis by (rule add_error)
  qed
qed

lemma switchType_grows:
  "switchType d r block = (r', e) \<Longrightarrow>
     prefix (ECDSAs r) (ECDSAs r') \<and> prefix (RSAs r) (RSAs r') \<and> Secrets r' = Secrets r"
  unfolding switchType_def
  by (auto split: if_splits sum.splits dest: addCerts_grows add_grows)

lemma switchType_error:
  "switchType d r block = (r', Some err) \<Longrightarrow>
     (\<exists>t. err = errUnsupportedKeyType t) \<or> (\<exists>t. err = ParseError t) \<or> (\<exists>t. err = errUnknownPEMType t)"
  unfolding switchType_def
  by (auto split: if_splits sum.splits dest: addCerts_error add_error)

lemma loadBlock_grows:
  "loadBlock d r password block = (r', e) \<Longrightarrow>
     prefix (ECDSAs r) (ECDSAs r') \<and> prefix (RSAs r) (RSAs r') \<and> Secrets r' = Secrets r"
  unfolding loadBlock_def
  by (auto split: sum.splits dest: switchType_grows)


lemma LoadPEM_loop_skip:
  "pem_blocks d data bs rest \<Longrightarrow> loadBlocks d r password bs = (r1, None) \<Longrightarrow>
     LoadPEM_loop d r data password n = LoadPEM_loop d r1 rest password (n + length bs)"
proof (induction bs arbitrary: data r n)
  case Nil
  then show ?case by simp
next
  case (Cons b bs)
  from Cons.prems(1) obtain remainder where
    dec: "pem_Decode d data = Some (b, remainder)" and
    tl: "pem_blocks d remainder bs rest"
    by (auto split: option.splits)
  obtain r' e where lb: "loadBlock d r password b = (r', e)"
    by (cases "loadBlock d r password b")
  with Cons.prems(2) have e: "e = None" and rest: "loadBlocks d r' password bs = (r1, None)"
    by (auto split: option.splits)
  have "LoadPEM_loop d r data password n = LoadPEM_loop d r' remainder password (Suc n)"
    by (subst LoadPEM_loop.simps) (simp add: dec lb e)
  also have "\<dots> = LoadPEM_loop d r1 rest password (Suc n + length bs)"
    by (rule Cons.IH [OF tl rest])
  finally show ?case by simp
qed

lemma LoadPEM_loop_stop:
  "pem_Decode d data = None \<Longrightarrow> LoadPEM_loop d r data password n = Some (r, n, None)"
  by (subst LoadPEM_loop.simps) simp

lemma LoadPEM_loop_fail:
  "pem_Decode d data = Some (block, remainder) \<Longrightarrow>
   loadBlock d r password block = (r', Some err) \<Longrightarrow>
     LoadPEM_loop d r data password n = Some (r', n, Some err)"
  by (subst LoadPEM_loop.simps) simp

lemma pem_blocks_append:
  "pem_blocks d data (bs @ cs) rest =
     (\<exists>mid. pem_blocks d data bs mid \<and> pem_blocks d mid cs rest)"
  by (induction bs arbitrary: data) (auto split: option.splits)

lemma loadBlocks_grows:
  "loadBlocks d r password bs = (r', e) \<Longrightarrow>
     prefix (ECDSAs r) (ECDSAs r') \<and> prefix (RSAs r) (RSAs r') \<and> Secrets r' = Secrets r"
proof (induction bs arbitrary: r)
  case Nil
  then show ?case by simp
next
  case (Cons b bs)
  obtain r1 e1 where lb: "loadBlock d r password b = (r1, e1)"
    by (cases "loadBlock d r password b")
  note g = loadBlock_grows [OF lb]
  show ?case
  proof (cases e1)
    case None
    with Cons.prems lb have "loadBlocks d r1 password bs = (r', e)" by simp
    from Cons.IH [OF this] g show ?thesis by (auto intro: prefix_order.trans)
  next
    case (Some err)
    with Cons.prems lb have "r' = r1" by simp
    with g show ?thesis by simp
  qed
qed

lemma add_credentials:
  "add r k = (r', None) \<Longrightarrow> credentials r' = Suc (credentials r)"
  by (cases k) (auto simp: credentials_def)

lemma addCerts_credentials:
  "addCerts r certs = (r', None) \<Longrightarrow> credentials r' = credentials r + length certs"
proof (induction certs arbitrary: r)
  case Nil
  then show ?case by simp
next
  case (Cons c certs)
  obtain r1 e1 where a: "add r (PublicKey c) = (r1, e1)" by (cases "add r (PublicKey c)")
  with Cons.prems have e1: "e1 = None" and tl: "addCerts r1 certs = (r', None)"
    by (auto split: option.splits)
  from add_credentials a e1 have "credentials r1 = Suc (credentials r)" by simp
  with Cons.IH [OF tl] show ?case by simp
qed

lemma loadBlock_credentials:
  "loadBlock d r password block = (r', None) \<Longrightarrow>
     credentials r' = credentials r + blockYield d password block"
  unfolding loadBlock_def blockYield_def switchType_def
  by (auto split: sum.splits if_splits dest: addCerts_credentials add_credentials
           simp: credentials_def)

lemma loadBlocks_credentials:
  "loadBlocks d r password bs = (r', None) \<Longrightarrow>
     credentials r' = credentials r + sum_list (map (blockYield d password) bs)"
proof (induction bs arbitrary: r)
  case Nil
  then show ?case by simp
next
  case (Cons b bs)
  obtain r1 e1 where lb: "loadBlock d r password b = (r1, e1)"
    by (cases "loadBlock d r password b")
  with Cons.prems have e1: "e1 = None" and tl: "loadBlocks d r1 password bs = (r', None)"
    by (auto split: option.splits)
  from loadBlock_credentials lb e1
  have "credentials r1 = credentials r + blockYield d password b" by simp
  with Cons.IH [OF tl] show ?case by simp
qed


section \<open>The claims about Check\<close>

text \<open>
  Claim C3. Each of the three verifiers returns success (nil, here \<open>None\<close>) exactly when
  some candidate of its family's list validates the signature, wherever in the list that
  candidate stands and whatever follows it, and returns \<open>ErrSigMiss\<close> in every other
  case: the same error in the three families, whether no key fits, the content was
  changed or \<open>rsa.VerifyPKCS1v15\<close> reports any error for a candidate, and also when the
  lists are empty.
\<close>

theorem verifySig_first_hit_or_ErrSigMiss:
  "verifySig d reg HMAC content sig hash =
     (if \<exists>secret\<in>set (Secrets reg). sig = hmac_digest d hash secret content
      then None else Some ErrSigMiss)
   \<and> verifySig d reg RSA content sig hash =
     (if \<exists>key\<in>set (RSAs reg).
           rsa_VerifyPKCS1v15 d key hash (hash_digest d hash content) sig = None
      then None else Some ErrSigMiss)
   \<and> verifySig d reg ECDSA content sig hash =
     (if \<exists>key\<in>set (ECDSAs reg).
           ecdsa_Verify d key (hash_digest d hash content)
             (SetBytes (take (length sig div 2) sig)) (SetBytes (drop (length sig div 2) sig))
      then None else Some ErrSigMiss)
   \<and> verifySig d (reg\<lparr>Secrets := [], RSAs := [], ECDSAs := []\<rparr>) fam content sig hash
       = Some ErrSigMiss"
  by (cases fam) (simp_all add: hmacLoop_result rsaLoop_result ecdsaLoop_result Sum_def)

theorem verifySig_first_hit_or_ErrSigMiss_witness:
  "verifySig sample_deps (empty_register\<lparr>Secrets := [[9], [7, 7]]\<rparr>) HMAC [1, 0] [7, 7, 1, 0] 5
     = None
   \<and> verifySig sample_deps (empty_register\<lparr>Secrets := [[9], [7, 7]]\<rparr>) HMAC [1, 0] [7, 8, 1, 0] 5
     = Some ErrSigMiss
   \<and> verifySig sample_deps (empty_register\<lparr>RSAs := [\<lparr>rsa_N = 3, rsa_E = 65537\<rparr>]\<rparr>)
        RSA [2, 0] [4] 5 = Some ErrSigMiss
   \<and> verifySig sample_deps empty_register ECDSA [3, 0] [1, 2] 5 = Some ErrSigMiss"
  using verifySig_first_hit_or_ErrSigMiss
    [of sample_deps "empty_register\<lparr>Secrets := [[9], [7, 7]]\<rparr>" "[1, 0]" "[7, 7, 1, 0]" 5]
    verifySig_first_hit_or_ErrSigMiss
    [of sample_deps "empty_register\<lparr>Secrets := [[9], [7, 7]]\<rparr>" "[1, 0]" "[7, 8, 1, 0]" 5]
    verifySig_first_hit_or_ErrSigMiss
    [of sample_deps "empty_register\<lparr>RSAs := [\<lparr>rsa_N = 3, rsa_E = 65537\<rparr>]\<rparr>" "[2, 0]" "[4]" 5]
    verifySig_first_hit_or_ErrSigMiss
    [of sample_deps empty_register "[3, 0]" "[1, 2]" 5]
  by (simp add: sample_deps_def empty_register_def SetBytes_def)

text \<open>
  Claim C2, as stated, fails: the ECDSA verifier checks no length. On the three-byte
  signature \<open>[1, 2, 3]\<close> it computes \<open>r = 1\<close> from the first byte and \<open>s = 515\<close> from the
  other two, and a candidate key that accepts \<open>(1, 515)\<close> makes it return success.
\<close>

theorem ecdsa_verifier_odd_length_counterexample:
  "odd (length [1, 2, 3 :: 8 word])
   \<and> verifySig sample_deps
        \<lparr>ECDSAs = [\<lparr>ec_Curve = 256, ec_X = 1, ec_Y = 515\<rparr>], RSAs = [], Secrets = []\<rparr>
        ECDSA [3, 0] [1, 2, 3] 5 = None"
  by (simp add: sample_deps_def SetBytes_def Sum_def)

text \<open>
  Claim C2, amended. For every signature buffer, of any length, the ECDSA verifier takes
  \<open>r\<close> from the first \<open>len div 2\<close> bytes and \<open>s\<close> from the remaining bytes, and tries
  \<open>(r, s)\<close> on every candidate key: it succeeds when one accepts and returns \<open>ErrSigMiss\<close>
  otherwise. The two parts always make up the whole buffer, and they are halves of equal
  length when the length is even.
\<close>

theorem ecdsa_verifier_no_length_check:
  "verifySig d reg ECDSA content sig hash =
     (if \<exists>key\<in>set (ECDSAs reg).
           ecdsa_Verify d key (hash_digest d hash content)
             (SetBytes (take (length sig div 2) sig)) (SetBytes (drop (length sig div 2) sig))
      then None else Some ErrSigMiss)
   \<and> take (length sig div 2) sig @ drop (length sig div 2) sig = sig
   \<and> (even (length sig) \<longrightarrow>
        length (take (length sig div 2) sig) = length (drop (length sig div 2) sig))"
proof -
  have "even (length sig) \<Longrightarrow>
          length (take (length sig div 2) sig) = length (drop (length sig div 2) sig)"
    by (auto elim!: evenE)
  then show ?thesis
    by (simp add: ecdsaLoop_result Sum_def)
qed

theorem ecdsa_verifier_no_length_check_witness:
  "verifySig sample_deps
     \<lparr>ECDSAs = [\<lparr>ec_Curve = 256, ec_X = 258, ec_Y = 772\<rparr>], RSAs = [], Secrets = []\<rparr>
     ECDSA [3, 0] [1, 2, 3, 4] 5 = None
   \<and> even (length [1, 2, 3, 4 :: 8 word])
   \<and> length (take 2 [1, 2, 3, 4 :: 8 word]) = length (drop 2 [1, 2, 3, 4 :: 8 word])"
  using ecdsa_verifier_no_length_check
    [of sample_deps "\<lparr>ECDSAs = [\<lparr>ec_Curve = 256, ec_X = 258, ec_Y = 772\<rparr>], RSAs = [], Secrets = []\<rparr>"
        "[3, 0]" "[1, 2, 3, 4]" 5]
  by (simp add: sample_deps_def SetBytes_def)


lemma selectVerifier_HMAC:
  "selectVerifier d hdr = Inr (hash, HMAC) \<longleftrightarrow> match d hdr (HMACAlgs d) = Inr hash"
  unfolding selectVerifier_def by (auto split: sum.splits)

lemma selectVerifier_RSA:
  "selectVerifier d hdr = Inr (hash, RSA) \<longleftrightarrow>
     match d hdr (HMACAlgs d) = Inl ErrAlgUnk \<and> match d hdr (RSAAlgs d) = Inr hash"
  unfolding selectVerifier_def by (auto split: sum.splits)

lemma selectVerifier_ECDSA:
  "selectVerifier d hdr = Inr (hash, ECDSA) \<longleftrightarrow>
     match d hdr (HMACAlgs d) = Inl ErrAlgUnk \<and> match d hdr (RSAAlgs d) = Inl ErrAlgUnk
     \<and> match d hdr (ECDSAAlgs d) = Inr hash"
  unfolding selectVerifier_def by (auto split: sum.splits)

lemma selectVerifier_miss:
  assumes "match_sound d"
      and "Alg hdr \<notin> dom (HMACAlgs d)" "Alg hdr \<notin> dom (RSAAlgs d)" "Alg hdr \<notin> dom (ECDSAAlgs d)"
  shows "\<exists>err. selectVerifier d hdr = Inl err"
proof (cases "selectVerifier d hdr")
  case (Inl err)
  then show ?thesis by blast
next
  case (Inr p)
  obtain hash fam where p: "p = (hash, fam)" by (cases p)
  have "\<exists>algs\<in>{HMACAlgs d, RSAAlgs d, ECDSAAlgs d}. match d hdr algs = Inr hash"
    using Inr p selectVerifier_HMAC [of d hdr hash] selectVerifier_RSA [of d hdr hash]
      selectVerifier_ECDSA [of d hdr hash]
    by (cases fam) auto
  then obtain algs where "algs \<in> {HMACAlgs d, RSAAlgs d, ECDSAAlgs d}"
    and "match d hdr algs = Inr hash" by blast
  with assms(1) have "algs \<in> {HMACAlgs d, RSAAlgs d, ECDSAAlgs d}" "algs (Alg hdr) = Some hash"
    by (auto simp: match_sound_def)
  with assms(2-4) show ?thesis by auto
qed

lemma Check_result:
  "parseHeader d token = Inr (hdr, buf) \<Longrightarrow>
   snd (Check d reg token) =
     (case selectVerifier d hdr of
        Inl err \<Rightarrow> Inl err
      | Inr (hash, fam) \<Rightarrow>
          (case verifyAndParseClaims d token buf hash (verifySig d reg fam) of
             Inl err \<Rightarrow> Inl err
           | Inr claims \<Rightarrow> Inr (claims\<lparr>KeyID := Kid hdr\<rparr>)))"
  unfolding Check_def by (simp split: sum.splits prod.splits)

lemma Check_register: "fst (Check d reg token) = reg"
  unfolding Check_def by (simp split: sum.splits prod.splits)

text \<open>
  Claim C1. Once the header is parsed, the HMAC verifier is chosen exactly when the HMAC
  table gives a hash; the RSA verifier exactly when the HMAC table reports \<open>ErrAlgUnk\<close>
  and the RSA table gives a hash; the ECDSA verifier exactly when both earlier tables
  report \<open>ErrAlgUnk\<close> and the ECDSA table gives a hash. \<open>Check\<close> hands
  \<open>verifyAndParseClaims\<close> the verifier of the chosen family and no other, and when the
  algorithm identifier is in none of the three tables \<open>Check\<close> returns an error, so no
  claims.
\<close>

theorem Check_family_dispatch:
  assumes "parseHeader d token = Inr (hdr, buf)"
  shows "(selectVerifier d hdr = Inr (hash, HMAC) \<longleftrightarrow> match d hdr (HMACAlgs d) = Inr hash)
   \<and> (selectVerifier d hdr = Inr (hash, RSA) \<longleftrightarrow>
        match d hdr (HMACAlgs d) = Inl ErrAlgUnk \<and> match d hdr (RSAAlgs d) = Inr hash)
   \<and> (selectVerifier d hdr = Inr (hash, ECDSA) \<longleftrightarrow>
        match d hdr (HMACAlgs d) = Inl ErrAlgUnk \<and> match d hdr (RSAAlgs d) = Inl ErrAlgUnk
        \<and> match d hdr (ECDSAAlgs d) = Inr hash)
   \<and> snd (Check d reg token) =
       (case selectVerifier d hdr of
          Inl err \<Rightarrow> Inl err
        | Inr (hash', fam) \<Rightarrow>
            (case verifyAndParseClaims d token buf hash' (verifySig d reg fam) of
               Inl err \<Rightarrow> Inl err
             | Inr claims \<Rightarrow> Inr (claims\<lparr>KeyID := Kid hdr\<rparr>)))
   \<and> (match_sound d \<and> Alg hdr \<notin> dom (HMACAlgs d) \<and> Alg hdr \<notin> dom (RSAAlgs d)
        \<and> Alg hdr \<notin> dom (ECDSAAlgs d)
      \<longrightarrow> (\<exists>err. snd (Check d reg token) = Inl err))"
proof -
  have miss: "\<exists>err. snd (Check d reg token) = Inl err"
    if "match_sound d" "Alg hdr \<notin> dom (HMACAlgs d)" "Alg hdr \<notin> dom (RSAAlgs d)"
       "Alg hdr \<notin> dom (ECDSAAlgs d)"
  proof -
    from selectVerifier_miss [OF that] obtain err where "selectVerifier d hdr = Inl err" ..
    with Check_result [OF assms, of reg] show ?thesis by simp
  qed
  show ?thesis
    using selectVerifier_HMAC [of d hdr hash] selectVerifier_RSA [of d hdr hash]
      selectVerifier_ECDSA [of d hdr hash] Check_result [OF assms, of reg] miss
    by blast
qed

theorem Check_family_dispatch_witness:
  "parseHeader sample_deps [9, 0, 1] = Inr (\<lparr>Alg = ''none'', Kid = ''k1''\<rparr>, [])
   \<and> match_sound sample_deps
   \<and> ''none'' \<notin> dom (HMACAlgs sample_deps) \<and> ''none'' \<notin> dom (RSAAlgs sample_deps)
   \<and> ''none'' \<notin> dom (ECDSAAlgs sample_deps)
   \<and> (\<exists>err. snd (Check sample_deps empty_register [9, 0, 1]) = Inl err)"
proof -
  have ph: "parseHeader sample_deps [9, 0, 1] = Inr (\<lparr>Alg = ''none'', Kid = ''k1''\<rparr>, [])"
    by (simp add: sample_deps_def)
  have ms: "match_sound sample_deps"
    by (auto simp: match_sound_def sample_deps_def split: option.splits)
  have nd: "''none'' \<notin> dom (HMACAlgs sample_deps) \<and> ''none'' \<notin> dom (RSAAlgs sample_deps)
            \<and> ''none'' \<notin> dom (ECDSAAlgs sample_deps)"
    by (simp add: sample_deps_def)
  have "match_sound sample_deps
          \<and> Alg \<lparr>Alg = ''none'', Kid = ''k1''\<rparr> \<notin> dom (HMACAlgs sample_deps)
          \<and> Alg \<lparr>Alg = ''none'', Kid = ''k1''\<rparr> \<notin> dom (RSAAlgs sample_deps)
          \<and> Alg \<lparr>Alg = ''none'', Kid = ''k1''\<rparr> \<notin> dom (ECDSAAlgs sample_deps)
        \<longrightarrow> (\<exists>err. snd (Check sample_deps empty_register [9, 0, 1]) = Inl err)"
    using Check_family_dispatch [OF ph, of 5 empty_register] by blast
  with ms nd have "\<exists>err. snd (Check sample_deps empty_register [9, 0, 1]) = Inl err"
    by simp
  with ph ms nd show ?thesis by blast
qed

text \<open>
  Claim C9. \<open>Check\<close> leaves the register as it found it, so a second call sees what the
  first one saw and its result does not depend on the first.
\<close>

theorem Check_leaves_register_unchanged:
  "fst (Check d reg token) = reg
   \<and> snd (Check d (fst (Check d reg token1)) token2) = snd (Check d reg token2)"
  by (simp add: Check_register)

theorem Check_leaves_register_unchanged_witness:
  "fst (Check sample_deps (empty_register\<lparr>Secrets := [[7, 7]]\<rparr>) [1, 0, 7, 7, 1, 0])
     = empty_register\<lparr>Secrets := [[7, 7]]\<rparr>"
  using Check_leaves_register_unchanged
    [of sample_deps "empty_register\<lparr>Secrets := [[7, 7]]\<rparr>" "[1, 0, 7, 7, 1, 0]"]
  by simp

section \<open>Lemmas about LoadPEM\<close>

lemma LoadPEM_loop_returns:
  assumes "pem_Decode_consumes d"
  shows "\<exists>res. LoadPEM_loop d r data password n = Some res"
proof (induction "length data" arbitrary: data r n rule: less_induct)
  case less
  show ?case
  proof (cases "pem_Decode d data")
    case None
    then show ?thesis by (simp add: LoadPEM_loop_stop)
  next
    case (Some p)
    obtain block remainder where p: "p = (block, remainder)" by (cases p)
    with Some assms have shorter: "length remainder < length data"
      by (auto simp: pem_Decode_consumes_def)
    obtain r' e where lb: "loadBlock d r password block = (r', e)"
      by (cases "loadBlock d r password block")
    show ?thesis
    proof (cases e)
      case None
      have "LoadPEM_loop d r data password n = LoadPEM_loop d r' remainder password (Suc n)"
        by (subst LoadPEM_loop.simps) (simp add: Some p lb None)
      with less [OF shorter, of r' "Suc n"] show ?thesis by simp
    next
      case (Some err)
      with LoadPEM_loop_fail [of d data block remainder r password r' err n] \<open>pem_Decode d data = Some p\<close> p lb
      show ?thesis by simp
    qed
  qed
qed

lemma LoadPEM_loop_grows:
  assumes "LoadPEM_loop d r data password n = Some res"
  shows "prefix (ECDSAs r) (ECDSAs (fst res)) \<and> prefix (RSAs r) (RSAs (fst res))
         \<and> Secrets (fst res) = Secrets r"
proof (rule LoadPEM_loop.raw_induct [OF _ assms], goal_cases)
  case (1 loop d r data password n res)
  show ?case
  proof (cases "pem_Decode d data")
    case None
    with 1(2) show ?thesis by auto
  next
    case (Some p)
    obtain block remainder where p: "p = (block, remainder)" by (cases p)
    obtain r1 e1 where lb: "loadBlock d r password block = (r1, e1)"
      by (cases "loadBlock d r password block")
    note g = loadBlock_grows [OF lb]
    show ?thesis
    proof (cases e1)
      case None
      with 1(2) Some p lb have next_call: "loop d r1 remainder password (Suc n) = Some res"
        by simp
      have "prefix (ECDSAs r1) (ECDSAs (fst res)) \<and> prefix (RSAs r1) (RSAs (fst res))
            \<and> Secrets (fst res) = Secrets r1"
        by (rule 1(1) [OF next_call])
      with g show ?thesis by (auto intro: prefix_order.trans)
    next
      case (Some err)
      with 1(2) \<open>pem_Decode d data = Some p\<close> p lb have "fst res = r1" by auto
      with g show ?thesis by simp
    qed
  qed
qed


lemma openBlock_Type: "openBlock d password block = Inr block' \<Longrightarrow> Type block' = Type block"
  unfolding openBlock_def by (auto split: if_splits sum.splits)

lemma openBlock_error:
  "openBlock d password block = Inl err \<Longrightarrow>
     err = errUnencryptedPEM \<or> (\<exists>msg. err = DecryptPEMBlockError msg)"
  unfolding openBlock_def by (auto split: if_splits sum.splits)

lemma switchType_not_gate_error:
  "snd (switchType d r block) \<noteq> Some errUnencryptedPEM
   \<and> snd (switchType d r block) \<noteq> Some (DecryptPEMBlockError msg)"
proof -
  obtain r' e where st: "switchType d r block = (r', e)" by (cases "switchType d r block")
  show ?thesis
  proof (cases e)
    case None
    with st show ?thesis by simp
  next
    case (Some err)
    with st switchType_error [of d r block r' err] show ?thesis by auto
  qed
qed

lemma loadBlock_decrypt_error:
  "(\<exists>msg. snd (loadBlock d r password block) = Some (DecryptPEMBlockError msg)) \<longleftrightarrow>
     x509_IsEncryptedPEMBlock d block \<and> (\<exists>msg. x509_DecryptPEMBlock d block password = Inl msg)"
  using switchType_not_gate_error [of d r]
  unfolding loadBlock_def openBlock_def
  by (auto split: sum.splits if_splits)

lemma loadBlock_unencrypted_error:
  "snd (loadBlock d r password block) = Some errUnencryptedPEM \<longleftrightarrow>
     \<not> x509_IsEncryptedPEMBlock d block \<and> password \<noteq> []"
  using switchType_not_gate_error [of d r]
  unfolding loadBlock_def openBlock_def
  by (auto split: sum.splits if_splits)

lemma loadBlock_decrypted:
  "x509_IsEncryptedPEMBlock d block \<Longrightarrow> x509_DecryptPEMBlock d block password = Inr plain \<Longrightarrow>
     loadBlock d r password block = switchType d r (block\<lparr>Bytes := plain\<rparr>)"
  unfolding loadBlock_def openBlock_def by simp

lemma loadBlock_gate_fail:
  "\<not> x509_IsEncryptedPEMBlock d block \<Longrightarrow> password \<noteq> [] \<Longrightarrow>
     loadBlock d r password block = (r, Some errUnencryptedPEM)"
  "x509_IsEncryptedPEMBlock d block \<Longrightarrow> x509_DecryptPEMBlock d block password = Inl msg \<Longrightarrow>
     loadBlock d r password block = (r, Some (DecryptPEMBlockError msg))"
  unfolding loadBlock_def openBlock_def by simp_all

lemma loadBlock_fail_unchanged:
  "loadBlock d r password block = (r', Some err) \<Longrightarrow> Type block \<noteq> ''CERTIFICATE'' \<Longrightarrow> r' = r"
  unfolding loadBlock_def switchType_def
  by (auto split: sum.splits if_splits dest: openBlock_Type add_cases)

lemma LoadPEM_fail_after:
  assumes "pem_blocks d data (bs @ [bad]) rest"
      and "loadBlocks d r password bs = (r1, None)"
      and "loadBlock d r1 password bad = (r2, Some err)"
  shows "LoadPEM d r data password = Some (r2, length bs, Some err)"
proof -
  from assms(1) obtain mid where
    front: "pem_blocks d data bs mid" and last: "pem_blocks d mid [bad] rest"
    by (auto simp: pem_blocks_append)
  from last have dec: "pem_Decode d mid = Some (bad, rest)"
    by (auto split: option.splits)
  have "LoadPEM d r data password = LoadPEM_loop d r1 mid password (0 + length bs)"
    unfolding LoadPEM_def by (rule LoadPEM_loop_skip [OF front assms(2)])
  also have "\<dots> = Some (r2, 0 + length bs, Some err)"
    by (rule LoadPEM_loop_fail [OF dec assms(3)])
  finally show ?thesis by simp
qed

lemma LoadPEM_end_after:
  assumes "pem_blocks d data bs rest"
      and "pem_Decode d rest = None"
      and "loadBlocks d r password bs = (r1, None)"
  shows "LoadPEM d r data password = Some (r1, length bs, None)"
proof -
  have "LoadPEM d r data password = LoadPEM_loop d r1 rest password (0 + length bs)"
    unfolding LoadPEM_def by (rule LoadPEM_loop_skip [OF assms(1) assms(3)])
  also have "\<dots> = Some (r1, 0 + length bs, None)"
    by (rule LoadPEM_loop_stop [OF assms(2)])
  finally show ?thesis by simp
qed

section \<open>The claims about LoadPEM\<close>

text \<open>
  Claim C10. When \<open>pem.Decode\<close> finds no block in the buffer, \<open>LoadPEM\<close> returns the count
  0 and no error and leaves the register unchanged. When it finds no block in what
  follows the last block, those bytes are ignored: the call returns the number of blocks
  loaded and no error.
\<close>

theorem LoadPEM_no_block:
  "(pem_Decode d data = None \<longrightarrow> LoadPEM d r data password = Some (r, 0, None))
   \<and> (pem_blocks d data bs rest \<and> pem_Decode d rest = None
       \<and> loadBlocks d r password bs = (r1, None)
      \<longrightarrow> LoadPEM d r data password = Some (r1, length bs, None))"
  using LoadPEM_end_after [of d data bs rest r password r1] LoadPEM_loop_stop [of d data r password 0]
  by (simp add: LoadPEM_def)

theorem LoadPEM_no_block_witness:
  "pem_Decode sample_deps [0, 45, 45] = None
   \<and> LoadPEM sample_deps empty_register [0, 45, 45] [] = Some (empty_register, 0, None)
   \<and> pem_Decode sample_deps [] = None
   \<and> LoadPEM sample_deps empty_register [] [] = Some (empty_register, 0, None)
   \<and> pem_blocks sample_deps [2, 0, 1, 200, 0, 45]
        [\<lparr>Type = ''PUBLIC KEY'', Headers = [], Bytes = [200]\<rparr>] [0, 45]
   \<and> pem_Decode sample_deps [0, 45] = None
   \<and> loadBlocks sample_deps empty_register [] [\<lparr>Type = ''PUBLIC KEY'', Headers = [], Bytes = [200]\<rparr>]
       = (empty_register\<lparr>ECDSAs := [\<lparr>ec_Curve = 256, ec_X = 200, ec_Y = 1\<rparr>]\<rparr>, None)
   \<and> LoadPEM sample_deps empty_register [2, 0, 1, 200, 0, 45] []
       = Some (empty_register\<lparr>ECDSAs := [\<lparr>ec_Curve = 256, ec_X = 200, ec_Y = 1\<rparr>]\<rparr>, 1, None)"
proof -
  have a: "pem_Decode sample_deps [0, 45, 45] = None" "pem_Decode sample_deps [] = None"
    "pem_Decode sample_deps [0, 45] = None"
    by (simp_all add: sample_deps_def)
  have b: "pem_blocks sample_deps [2, 0, 1, 200, 0, 45]
             [\<lparr>Type = ''PUBLIC KEY'', Headers = [], Bytes = [200]\<rparr>] [0, 45]"
    by (simp add: sample_deps_def sample_type_def)
  have c: "loadBlocks sample_deps empty_register []
             [\<lparr>Type = ''PUBLIC KEY'', Headers = [], Bytes = [200]\<rparr>]
           = (empty_register\<lparr>ECDSAs := [\<lparr>ec_Curve = 256, ec_X = 200, ec_Y = 1\<rparr>]\<rparr>, None)"
    by (simp add: loadBlock_def openBlock_def switchType_def sample_deps_def sample_key_def
        empty_register_def)
  from a b c
    LoadPEM_no_block [of sample_deps "[0, 45, 45]" empty_register "[]" "[]" "[0, 45, 45]"
      empty_register]
    LoadPEM_no_block [of sample_deps "[]" empty_register "[]" "[]" "[]" empty_register]
    LoadPEM_no_block [of sample_deps "[2, 0, 1, 200, 0, 45]" empty_register "[]"
      "[\<lparr>Type = ''PUBLIC KEY'', Headers = [], Bytes = [200]\<rparr>]" "[0, 45]"
      "empty_register\<lparr>ECDSAs := [\<lparr>ec_Curve = 256, ec_X = 200, ec_Y = 1\<rparr>]\<rparr>"]
  show ?thesis by simp
qed


text \<open>
  Claim C6, as stated, fails in its last part. A buffer of one valid certificate block
  that holds two certificates, followed by one block of an unknown type, is \<open>N = 1\<close> valid
  block and one invalid block; \<open>LoadPEM\<close> reports the error with count 1, and the register
  holds two credentials. A buffer of one certificate block whose second certificate has
  a key that \<open>add\<close> refuses is \<open>N = 0\<close> valid blocks and one invalid block; \<open>LoadPEM\<close> reports
  the error with count 0, and the register holds one credential.
\<close>

theorem LoadPEM_trailing_invalid_counterexample:
  "pem_blocks sample_deps [1, 0, 2, 10, 12, 9, 0, 0]
     [\<lparr>Type = ''CERTIFICATE'', Headers = [], Bytes = [10, 12]\<rparr>,
      \<lparr>Type = ''DSA PRIVATE KEY'', Headers = [], Bytes = []\<rparr>] []
   \<and> snd (loadBlock sample_deps empty_register []
            \<lparr>Type = ''CERTIFICATE'', Headers = [], Bytes = [10, 12]\<rparr>) = None
   \<and> LoadPEM sample_deps empty_register [1, 0, 2, 10, 12, 9, 0, 0] [] =
       Some (\<lparr>ECDSAs = [],
              RSAs = [\<lparr>rsa_N = 10, rsa_E = 65537\<rparr>, \<lparr>rsa_N = 12, rsa_E = 65537\<rparr>],
              Secrets = []\<rparr>,
             1, Some (errUnknownPEMType ''DSA PRIVATE KEY''))
   \<and> credentials \<lparr>ECDSAs = [],
                    RSAs = [\<lparr>rsa_N = 10, rsa_E = 65537\<rparr>, \<lparr>rsa_N = 12, rsa_E = 65537\<rparr>],
                    Secrets = []\<rparr> = 2
   \<and> credentials empty_register = 0
   \<and> pem_blocks sample_deps [1, 0, 2, 10, 0]
         [\<lparr>Type = ''CERTIFICATE'', Headers = [], Bytes = [10, 0]\<rparr>] []
   \<and> LoadPEM sample_deps empty_register [1, 0, 2, 10, 0] [] =
       Some (\<lparr>ECDSAs = [], RSAs = [\<lparr>rsa_N = 10, rsa_E = 65537\<rparr>], Secrets = []\<rparr>,
             0, Some (errUnsupportedKeyType ''ed25519.PublicKey''))
   \<and> credentials \<lparr>ECDSAs = [], RSAs = [\<lparr>rsa_N = 10, rsa_E = 65537\<rparr>], Secrets = []\<rparr> = 1"
  by (simp add: LoadPEM_def LoadPEM_loop.simps loadBlock_def openBlock_def switchType_def
      sample_deps_def empty_register_def sample_type_def sample_key_def credentials_def)

lemma add_supported: "snd (add r k) = None \<longleftrightarrow> supported k"
  by (cases k) simp_all

lemma add_unsupported: "\<not> supported k \<Longrightarrow> add r k = (r, Some (errUnsupportedKeyType (typeName k)))"
  by (cases k) simp_all

lemma addCerts_fail_credentials:
  "addCerts r certs = (r', Some err) \<Longrightarrow>
     credentials r' = credentials r + length (takeWhile (\<lambda>c. supported (PublicKey c)) certs)"
proof (induction certs arbitrary: r)
  case Nil
  then show ?case by simp
next
  case (Cons c certs)
  show ?case
  proof (cases "supported (PublicKey c)")
    case True
    then obtain r1 where a: "add r (PublicKey c) = (r1, None)"
      using add_supported [of r "PublicKey c"] by (cases "add r (PublicKey c)") simp
    with Cons.prems have "addCerts r1 certs = (r', Some err)" by simp
    from Cons.IH [OF this] add_credentials [OF a] True show ?thesis by simp
  next
    case False
    with Cons.prems add_unsupported [of "PublicKey c" r] show ?thesis by simp
  qed
qed

lemma addCerts_fail_same:
  "addCerts r certs = (r', Some err) \<Longrightarrow>
   takeWhile (\<lambda>c. supported (PublicKey c)) certs = [] \<Longrightarrow> r' = r"
proof (cases certs)
  case Nil
  assume "addCerts r certs = (r', Some err)"
  with Nil show ?thesis by simp
next
  case (Cons c cs)
  assume run: "addCerts r certs = (r', Some err)"
    and none: "takeWhile (\<lambda>c. supported (PublicKey c)) certs = []"
  from none Cons have "\<not> supported (PublicKey c)" by (simp split: if_splits)
  with run Cons add_unsupported [of "PublicKey c" r] show ?thesis by simp
qed

lemma loadBlock_fail_credentials:
  "loadBlock d r password block = (r', Some err) \<Longrightarrow>
     credentials r' = credentials r + failedYield d password block"
  unfolding loadBlock_def failedYield_def switchType_def
  by (auto split: sum.splits if_splits dest: addCerts_fail_credentials add_cases)

lemma loadBlock_fail_same:
  "loadBlock d r password block = (r', Some err) \<Longrightarrow> failedYield d password block = 0 \<Longrightarrow>
     r' = r"
  unfolding loadBlock_def failedYield_def switchType_def
  by (auto split: sum.splits if_splits dest: addCerts_fail_same add_cases)

lemma failedYield_zero:
  "loadBlock d r password block = (r', Some err) \<Longrightarrow>
   (\<forall>t. err \<noteq> errUnsupportedKeyType t) \<or> Type block \<noteq> ''CERTIFICATE'' \<Longrightarrow>
     failedYield d password block = 0"
  unfolding loadBlock_def failedYield_def switchType_def
  by (auto split: sum.splits if_splits dest: addCerts_error openBlock_Type)

lemma sum_list_ones:
  "\<forall>b\<in>set bs. blockYield d password b = 1 \<Longrightarrow>
     sum_list (map (blockYield d password) bs) = length bs"
  by (induction bs) simp_all

text \<open>
  Claim C6, amended. When the blocks \<open>bs\<close> load without error and the next block fails,
  \<open>LoadPEM\<close> stops there and returns the error with the count \<open>length bs\<close> of the blocks
  loaded before it; every credential that was in the register or that those blocks
  appended is still there, in place. The register then holds the credentials of the
  blocks \<open>bs\<close> and those the failing block appended before it failed. A failing block
  appended none, and left the register as the blocks \<open>bs\<close> left it, unless it is a
  certificate block that fails in \<open>add\<close> after an earlier certificate of the same block
  was added: so for a block that fails at the decryption gate, in parsing (a malformed
  certificate too), for its type, or in \<open>add\<close> on its first key. Hence \<open>N\<close> valid blocks
  that hold one credential each, followed by an invalid block that appended none,
  register exactly \<open>N\<close> credentials and report the error with count \<open>N\<close>.
\<close>

theorem LoadPEM_stops_at_failing_block:
  assumes "pem_blocks d data (bs @ [bad]) rest"
      and "loadBlocks d r password bs = (r1, None)"
      and "loadBlock d r1 password bad = (r2, Some err)"
  shows "LoadPEM d r data password = Some (r2, length bs, Some err)
   \<and> prefix (ECDSAs r) (ECDSAs r1) \<and> prefix (ECDSAs r1) (ECDSAs r2)
   \<and> prefix (RSAs r) (RSAs r1) \<and> prefix (RSAs r1) (RSAs r2)
   \<and> Secrets r1 = Secrets r \<and> Secrets r2 = Secrets r
   \<and> credentials r1 = credentials r + sum_list (map (blockYield d password) bs)
   \<and> credentials r2 = credentials r1 + failedYield d password bad
   \<and> ((\<forall>t. err \<noteq> errUnsupportedKeyType t) \<or> Type bad \<noteq> ''CERTIFICATE''
      \<longrightarrow> failedYield d password bad = 0)
   \<and> (failedYield d password bad = 0 \<longrightarrow> r2 = r1)
   \<and> ((\<forall>b\<in>set bs. blockYield d password b = 1) \<and> failedYield d password bad = 0
      \<longrightarrow> credentials r2 = credentials r + length bs)"
proof -
  note g1 = loadBlocks_grows [OF assms(2)]
  note g2 = loadBlock_grows [OF assms(3)]
  note c1 = loadBlocks_credentials [OF assms(2)]
  note c2 = loadBlock_fail_credentials [OF assms(3)]
  have zero: "failedYield d password bad = 0"
    if "(\<forall>t. err \<noteq> errUnsupportedKeyType t) \<or> Type bad \<noteq> ''CERTIFICATE''"
    by (rule failedYield_zero [OF assms(3) that])
  have same: "r2 = r1" if "failedYield d password bad = 0"
    by (rule loadBlock_fail_same [OF assms(3) that])
  have exact: "credentials r2 = credentials r + length bs"
    if "\<forall>b\<in>set bs. blockYield d password b = 1" "failedYield d password bad = 0"
    using c1 c2 sum_list_ones [OF that(1)] that(2) by simp
  have sec: "Secrets r2 = Secrets r"
    using g1 g2 by simp
  show ?thesis
    using LoadPEM_fail_after [OF assms] g1 g2 sec c1 c2 zero same exact by blast
qed

theorem LoadPEM_stops_at_failing_block_witness:
  "pem_blocks sample_deps [2, 0, 1, 200, 4, 0, 2, 6, 3, 1, 0, 2, 0, 10]
     ([\<lparr>Type = ''PUBLIC KEY'', Headers = [], Bytes = [200]\<rparr>,
       \<lparr>Type = ''RSA PRIVATE KEY'', Headers = [], Bytes = [6, 3]\<rparr>]
      @ [\<lparr>Type = ''CERTIFICATE'', Headers = [], Bytes = [0, 10]\<rparr>]) []
   \<and> blockYield sample_deps [] \<lparr>Type = ''PUBLIC KEY'', Headers = [], Bytes = [200]\<rparr> = 1
   \<and> blockYield sample_deps [] \<lparr>Type = ''RSA PRIVATE KEY'', Headers = [], Bytes = [6, 3]\<rparr> = 1
   \<and> failedYield sample_deps [] \<lparr>Type = ''CERTIFICATE'', Headers = [], Bytes = [0, 10]\<rparr> = 0
   \<and> LoadPEM sample_deps empty_register [2, 0, 1, 200, 4, 0, 2, 6, 3, 1, 0, 2, 0, 10] [] =
       Some (\<lparr>ECDSAs = [\<lparr>ec_Curve = 256, ec_X = 200, ec_Y = 1\<rparr>],
              RSAs = [\<lparr>rsa_N = 6, rsa_E = 65537\<rparr>], Secrets = []\<rparr>,
             2, Some (errUnsupportedKeyType ''ed25519.PublicKey''))
   \<and> credentials \<lparr>ECDSAs = [\<lparr>ec_Curve = 256, ec_X = 200, ec_Y = 1\<rparr>],
                    RSAs = [\<lparr>rsa_N = 6, rsa_E = 65537\<rparr>], Secrets = []\<rparr>
       = credentials empty_register + 2"
proof -
  let ?bs = "[\<lparr>Type = ''PUBLIC KEY'', Headers = [], Bytes = [200]\<rparr>,
              \<lparr>Type = ''RSA PRIVATE KEY'', Headers = [], Bytes = [6, 3]\<rparr>]"
  let ?bad = "\<lparr>Type = ''CERTIFICATE'', Headers = [], Bytes = [0, 10]\<rparr>"
  let ?r1 = "\<lparr>ECDSAs = [\<lparr>ec_Curve = 256, ec_X = 200, ec_Y = 1\<rparr>],
              RSAs = [\<lparr>rsa_N = 6, rsa_E = 65537\<rparr>], Secrets = []\<rparr>"
  have a: "pem_blocks sample_deps [2, 0, 1, 200, 4, 0, 2, 6, 3, 1, 0, 2, 0, 10] (?bs @ [?bad]) []"
    by (simp add: sample_deps_def sample_type_def)
  have b: "loadBlocks sample_deps empty_register [] ?bs = (?r1, None)"
    by (simp add: loadBlock_def openBlock_def switchType_def sample_deps_def sample_key_def
        empty_register_def)
  have c: "loadBlock sample_deps ?r1 [] ?bad
             = (?r1, Some (errUnsupportedKeyType ''ed25519.PublicKey''))"
    by (simp add: loadBlock_def openBlock_def switchType_def sample_deps_def sample_key_def)
  have y: "blockYield sample_deps [] \<lparr>Type = ''PUBLIC KEY'', Headers = [], Bytes = [200]\<rparr> = 1"
    "blockYield sample_deps [] \<lparr>Type = ''RSA PRIVATE KEY'', Headers = [], Bytes = [6, 3]\<rparr> = 1"
    by (simp_all add: blockYield_def openBlock_def sample_deps_def)
  have z: "failedYield sample_deps [] ?bad = 0"
    by (simp add: failedYield_def openBlock_def sample_deps_def sample_key_def)
  from LoadPEM_stops_at_failing_block [OF a b c] a y z show ?thesis by simp
qed

text \<open>
  Claim C7, as stated, fails in its first part: a wrong password does not always give a
  decryption error. The block below is the key \<open>[48, 200, 8, 7]\<close> encrypted under the
  password \<open>[112, 119]\<close>, and loads with it. With the wrong password \<open>[113, 119]\<close> the
  decryption reports no error and returns other bytes, and \<open>LoadPEM\<close> fails with the
  parser's error.
\<close>

theorem LoadPEM_undetected_wrong_password_counterexample:
  "x509_IsEncryptedPEMBlock cipher_deps
     \<lparr>Type = ''EC PRIVATE KEY'', Headers = [(''DEK-Info'', ''AES-128-CBC'')],
      Bytes = [160, 56, 120, 119, 120]\<rparr>
   \<and> sample_Encrypt [112, 119] [48, 200, 8, 7] = [160, 56, 120, 119, 120]
   \<and> LoadPEM cipher_deps empty_register [3, 1, 5, 160, 56, 120, 119, 120] [112, 119]
       = Some (\<lparr>ECDSAs = [\<lparr>ec_Curve = 256, ec_X = 200, ec_Y = 8\<rparr>], RSAs = [], Secrets = []\<rparr>,
               1, None)
   \<and> [113, 119] \<noteq> [112, 119 :: 8 word]
   \<and> x509_DecryptPEMBlock cipher_deps
        \<lparr>Type = ''EC PRIVATE KEY'', Headers = [(''DEK-Info'', ''AES-128-CBC'')],
         Bytes = [160, 56, 120, 119, 120]\<rparr> [113, 119] = Inr [47, 199, 7, 6]
   \<and> LoadPEM cipher_deps empty_register [3, 1, 5, 160, 56, 120, 119, 120] [113, 119]
       = Some (empty_register, 0, Some (ParseError ''asn1: structure error''))"
  by (simp add: LoadPEM_def LoadPEM_loop.simps loadBlock_def openBlock_def switchType_def
      cipher_deps_def sample_deps_def empty_register_def sample_type_def
      sample_Decrypt_def sample_Encrypt_def)

text \<open>
  Claim C7, amended. Processing a block fails with the error of \<open>x509.DecryptPEMBlock\<close>
  exactly when the block is encrypted and \<open>x509.DecryptPEMBlock\<close> reports an error for
  the supplied password (empty when none is given); for a block on which it reports an
  error for every password but the right one, that is exactly when the block is
  encrypted and the password is wrong or absent. Processing fails with
  \<open>errUnencryptedPEM\<close> exactly when the block is not encrypted and the password is not
  empty. An encrypted block that decrypts is processed like any block, on the decrypted
  bytes. In \<open>LoadPEM\<close>, either failure on the block that follows the loaded blocks \<open>bs\<close> is
  returned with the count \<open>length bs\<close>.
\<close>

theorem LoadPEM_password_gate:
  "((\<exists>msg. snd (loadBlock d r password block) = Some (DecryptPEMBlockError msg)) \<longleftrightarrow>
      x509_IsEncryptedPEMBlock d block
      \<and> (\<exists>msg. x509_DecryptPEMBlock d block password = Inl msg))
   \<and> ((\<forall>pw. (\<exists>plain. x509_DecryptPEMBlock d block pw = Inr plain) \<longleftrightarrow> pw = right)
      \<longrightarrow> ((\<exists>msg. snd (loadBlock d r password block) = Some (DecryptPEMBlockError msg)) \<longleftrightarrow>
             x509_IsEncryptedPEMBlock d block \<and> password \<noteq> right))
   \<and> (snd (loadBlock d r password block) = Some errUnencryptedPEM \<longleftrightarrow>
        \<not> x509_IsEncryptedPEMBlock d block \<and> password \<noteq> [])
   \<and> (x509_IsEncryptedPEMBlock d block \<and> x509_DecryptPEMBlock d block password = Inr plain
      \<longrightarrow> loadBlock d r password block = switchType d r (block\<lparr>Bytes := plain\<rparr>))
   \<and> (pem_blocks d data (bs @ [block]) rest \<and> loadBlocks d r password bs = (r1, None)
      \<longrightarrow> (\<not> x509_IsEncryptedPEMBlock d block \<and> password \<noteq> []
           \<longrightarrow> LoadPEM d r data password = Some (r1, length bs, Some errUnencryptedPEM))
        \<and> (x509_IsEncryptedPEMBlock d block \<and> x509_DecryptPEMBlock d block password = Inl msg
           \<longrightarrow> LoadPEM d r data password
                 = Some (r1, length bs, Some (DecryptPEMBlockError msg))))"
proof -
  have lift: "LoadPEM d r data password = Some (r1, length bs, Some err)"
    if "pem_blocks d data (bs @ [block]) rest" "loadBlocks d r password bs = (r1, None)"
       "loadBlock d r1 password block = (r1, Some err)" for err
    using that by (rule LoadPEM_fail_after)
  have detected:
    "(\<exists>msg. snd (loadBlock d r password block) = Some (DecryptPEMBlockError msg)) \<longleftrightarrow>
       x509_IsEncryptedPEMBlock d block \<and> password \<noteq> right"
    if all: "\<forall>pw. (\<exists>plain. x509_DecryptPEMBlock d block pw = Inr plain) \<longleftrightarrow> pw = right"
  proof -
    from all have "(\<exists>plain. x509_DecryptPEMBlock d block password = Inr plain)
                     \<longleftrightarrow> password = right" ..
    then have "(\<exists>msg. x509_DecryptPEMBlock d block password = Inl msg) \<longleftrightarrow> password \<noteq> right"
      by (cases "x509_DecryptPEMBlock d block password") auto
    with loadBlock_decrypt_error [of d r password block] show ?thesis by simp
  qed
  show ?thesis
    using loadBlock_decrypt_error [of d r password block] detected
      loadBlock_unencrypted_error [of d r password block]
      loadBlock_decrypted [of d block password plain r]
      lift loadBlock_gate_fail(1) [of d block password r1]
      loadBlock_gate_fail(2) [of d block password msg r1]
    by blast
qed

theorem LoadPEM_password_gate_witness:
  "x509_IsEncryptedPEMBlock sample_deps
     \<lparr>Type = ''EC PRIVATE KEY'', Headers = [(''DEK-Info'', ''AES-128-CBC'')], Bytes = [7, 8, 200]\<rparr>
   \<and> (\<exists>msg. snd (loadBlock sample_deps empty_register [1]
        \<lparr>Type = ''EC PRIVATE KEY'', Headers = [(''DEK-Info'', ''AES-128-CBC'')], Bytes = [7, 8, 200]\<rparr>)
        = Some (DecryptPEMBlockError msg))
   \<and> [1] \<noteq> [112, 119 :: 8 word]
   \<and> LoadPEM sample_deps empty_register [3, 1, 3, 7, 8, 200] [1]
       = Some (empty_register, 0, Some (DecryptPEMBlockError ''x509: decryption password incorrect''))
   \<and> LoadPEM sample_deps empty_register [3, 1, 3, 7, 8, 200] []
       = Some (empty_register, 0, Some (DecryptPEMBlockError ''x509: decryption password incorrect''))
   \<and> LoadPEM sample_deps empty_register [3, 0, 3, 200, 8, 7] [112, 119]
       = Some (empty_register, 0, Some errUnencryptedPEM)
   \<and> loadBlock sample_deps empty_register [112, 119]
        \<lparr>Type = ''EC PRIVATE KEY'', Headers = [(''DEK-Info'', ''AES-128-CBC'')], Bytes = [7, 8, 200]\<rparr>
       = switchType sample_deps empty_register
           \<lparr>Type = ''EC PRIVATE KEY'', Headers = [(''DEK-Info'', ''AES-128-CBC'')], Bytes = [200, 8, 7]\<rparr>"
proof -
  let ?enc = "\<lparr>Type = ''EC PRIVATE KEY'', Headers = [(''DEK-Info'', ''AES-128-CBC'')],
               Bytes = [7, 8, 200]\<rparr>"
  let ?clear = "\<lparr>Type = ''EC PRIVATE KEY'', Headers = [], Bytes = [200, 8, 7]\<rparr>"
  have e: "x509_IsEncryptedPEMBlock sample_deps ?enc" "\<not> x509_IsEncryptedPEMBlock sample_deps ?clear"
    by (simp_all add: sample_deps_def)
  have dk: "x509_DecryptPEMBlock sample_deps ?enc [1] = Inl ''x509: decryption password incorrect''"
    "x509_DecryptPEMBlock sample_deps ?enc [] = Inl ''x509: decryption password incorrect''"
    "x509_DecryptPEMBlock sample_deps ?enc [112, 119] = Inr [200, 8, 7]"
    by (simp_all add: sample_deps_def)
  have strict: "\<forall>pw. (\<exists>plain. x509_DecryptPEMBlock sample_deps ?enc pw = Inr plain)
                  \<longleftrightarrow> pw = [112, 119]"
    by (simp add: sample_deps_def)
  have ne: "[1] \<noteq> [112, 119 :: 8 word]" by simp
  have pb: "pem_blocks sample_deps [3, 1, 3, 7, 8, 200] ([] @ [?enc]) []"
    "pem_blocks sample_deps [3, 0, 3, 200, 8, 7] ([] @ [?clear]) []"
    by (simp_all add: sample_deps_def sample_type_def)
  have lb: "loadBlocks sample_deps empty_register [1] [] = (empty_register, None)"
    "loadBlocks sample_deps empty_register [] [] = (empty_register, None)"
    "loadBlocks sample_deps empty_register [112, 119] [] = (empty_register, None)"
    by simp_all
  have detected: "\<exists>msg. snd (loadBlock sample_deps empty_register [1] ?enc)
                    = Some (DecryptPEMBlockError msg)"
    using LoadPEM_password_gate [of sample_deps empty_register "[1]" ?enc "[112, 119]"]
      strict e(1) ne by blast
  from e dk pb lb
    LoadPEM_password_gate [of sample_deps empty_register "[1]" ?enc "[112, 119]" "[]"
      "[3, 1, 3, 7, 8, 200]" "[]" "[]" empty_register "''x509: decryption password incorrect''"]
    LoadPEM_password_gate [of sample_deps empty_register "[]" ?enc "[112, 119]" "[]"
      "[3, 1, 3, 7, 8, 200]" "[]" "[]" empty_register "''x509: decryption password incorrect''"]
    LoadPEM_password_gate [of sample_deps empty_register "[112, 119]" ?clear "[]" "[]"
      "[3, 0, 3, 200, 8, 7]" "[]" "[]" empty_register "[]"]
    LoadPEM_password_gate [of sample_deps empty_register "[112, 119]" ?enc "[]" "[200, 8, 7]"]
  have rest: "LoadPEM sample_deps empty_register [3, 1, 3, 7, 8, 200] [1]
       = Some (empty_register, 0, Some (DecryptPEMBlockError ''x509: decryption password incorrect''))
   \<and> LoadPEM sample_deps empty_register [3, 1, 3, 7, 8, 200] []
       = Some (empty_register, 0, Some (DecryptPEMBlockError ''x509: decryption password incorrect''))
   \<and> LoadPEM sample_deps empty_register [3, 0, 3, 200, 8, 7] [112, 119]
       = Some (empty_register, 0, Some errUnencryptedPEM)
   \<and> loadBlock sample_deps empty_register [112, 119] ?enc
       = switchType sample_deps empty_register
           \<lparr>Type = ''EC PRIVATE KEY'', Headers = [(''DEK-Info'', ''AES-128-CBC'')],
            Bytes = [200, 8, 7]\<rparr>"
    by simp
  from e(1) detected ne rest show ?thesis by blast
qed

lemma LoadPEM_returns:
  "pem_Decode_consumes d \<Longrightarrow> \<exists>res. LoadPEM d r data password = Some res"
  unfolding LoadPEM_def by (rule LoadPEM_loop_returns)

lemma LoadPEM_grows:
  "LoadPEM d r data password = Some (r', n, e) \<Longrightarrow>
     prefix (ECDSAs r) (ECDSAs r') \<and> prefix (RSAs r) (RSAs r') \<and> Secrets r' = Secrets r"
  unfolding LoadPEM_def by (drule LoadPEM_loop_grows) simp

lemma loadBlock_EC_PRIVATE_KEY:
  "Type block = ''EC PRIVATE KEY'' \<Longrightarrow> openBlock d password block = Inr block' \<Longrightarrow>
   x509_ParseECPrivateKey d (Bytes block') = Inr priv \<Longrightarrow>
     loadBlock d r password block = (r\<lparr>ECDSAs := ECDSAs r @ [ecdsa_PublicKey_of priv]\<rparr>, None)"
  by (frule openBlock_Type) (simp add: loadBlock_def switchType_def)

lemma loadBlock_RSA_PRIVATE_KEY:
  "Type block = ''RSA PRIVATE KEY'' \<Longrightarrow> openBlock d password block = Inr block' \<Longrightarrow>
   x509_ParsePKCS1PrivateKey d (Bytes block') = Inr priv \<Longrightarrow>
     loadBlock d r password block = (r\<lparr>RSAs := RSAs r @ [rsa_PublicKey_of priv]\<rparr>, None)"
  by (frule openBlock_Type) (simp add: loadBlock_def switchType_def)

text \<open>
  Claim C5. The register has three fields: public ECDSA keys, public RSA keys and HMAC
  secrets. A private-key block that parses appends the public key embedded in the
  parsed private key, and nothing else, to the list of its family; \<open>add\<close> refuses a
  private key and leaves the register as it was; \<open>add\<close> and \<open>LoadPEM\<close> only append to the
  two key lists and never touch the secrets. \<open>LoadPEM\<close> returns whenever \<open>pem.Decode\<close>
  hands back a remainder shorter than its input.
\<close>

theorem register_keeps_public_part_only:
  "(Type block = ''EC PRIVATE KEY'' \<and> openBlock d password block = Inr block'
      \<and> x509_ParseECPrivateKey d (Bytes block') = Inr ecpriv
    \<longrightarrow> loadBlock d r password block
          = (r\<lparr>ECDSAs := ECDSAs r @ [ecdsa_PublicKey_of ecpriv]\<rparr>, None))
   \<and> (Type block = ''RSA PRIVATE KEY'' \<and> openBlock d password block = Inr block'
      \<and> x509_ParsePKCS1PrivateKey d (Bytes block') = Inr rsapriv
    \<longrightarrow> loadBlock d r password block
          = (r\<lparr>RSAs := RSAs r @ [rsa_PublicKey_of rsapriv]\<rparr>, None))
   \<and> add r (ECDSAPrivateKey ecpriv) = (r, Some (errUnsupportedKeyType ''*ecdsa.PrivateKey''))
   \<and> add r (RSAPrivateKey rsapriv) = (r, Some (errUnsupportedKeyType ''*rsa.PrivateKey''))
   \<and> (add r k = (r', e)
    \<longrightarrow> prefix (ECDSAs r) (ECDSAs r') \<and> prefix (RSAs r) (RSAs r') \<and> Secrets r' = Secrets r)
   \<and> (LoadPEM d r data password = Some (r', n, e)
    \<longrightarrow> prefix (ECDSAs r) (ECDSAs r') \<and> prefix (RSAs r) (RSAs r') \<and> Secrets r' = Secrets r)
   \<and> (pem_Decode_consumes d \<longrightarrow> (\<exists>res. LoadPEM d r data password = Some res))"
  using loadBlock_EC_PRIVATE_KEY [of block d password block' ecpriv r]
    loadBlock_RSA_PRIVATE_KEY [of block d password block' rsapriv r]
    add_grows [of r k r' e] LoadPEM_grows [of d r data password r' n e]
    LoadPEM_returns [of d r data password]
  by simp

theorem register_keeps_public_part_only_witness:
  "openBlock sample_deps [] \<lparr>Type = ''EC PRIVATE KEY'', Headers = [], Bytes = [200, 8, 7]\<rparr>
     = Inr \<lparr>Type = ''EC PRIVATE KEY'', Headers = [], Bytes = [200, 8, 7]\<rparr>
   \<and> x509_ParseECPrivateKey sample_deps [200, 8, 7]
       = Inr \<lparr>ecdsa_PublicKey_of = \<lparr>ec_Curve = 256, ec_X = 200, ec_Y = 8\<rparr>, ec_D = 7\<rparr>
   \<and> loadBlock sample_deps empty_register []
        \<lparr>Type = ''EC PRIVATE KEY'', Headers = [], Bytes = [200, 8, 7]\<rparr>
       = (\<lparr>ECDSAs = [\<lparr>ec_Curve = 256, ec_X = 200, ec_Y = 8\<rparr>], RSAs = [], Secrets = []\<rparr>, None)
   \<and> pem_Decode_consumes sample_deps
   \<and> (\<exists>res. LoadPEM sample_deps empty_register [3, 0, 3, 200, 8, 7, 4, 0, 2, 6, 3] [] = Some res)
   \<and> LoadPEM sample_deps empty_register [3, 0, 3, 200, 8, 7, 4, 0, 2, 6, 3] []
       = Some (\<lparr>ECDSAs = [\<lparr>ec_Curve = 256, ec_X = 200, ec_Y = 8\<rparr>],
                RSAs = [\<lparr>rsa_N = 6, rsa_E = 65537\<rparr>], Secrets = []\<rparr>, 2, None)
   \<and> Secrets \<lparr>ECDSAs = [\<lparr>ec_Curve = 256, ec_X = 200, ec_Y = 8\<rparr>],
                RSAs = [\<lparr>rsa_N = 6, rsa_E = 65537\<rparr>], Secrets = []\<rparr> = Secrets empty_register"
proof -
  let ?block = "\<lparr>Type = ''EC PRIVATE KEY'', Headers = [], Bytes = [200, 8, 7]\<rparr>"
  let ?priv = "\<lparr>ecdsa_PublicKey_of = \<lparr>ec_Curve = 256, ec_X = 200, ec_Y = 8\<rparr>, ec_D = 7\<rparr>"
  let ?r' = "\<lparr>ECDSAs = [\<lparr>ec_Curve = 256, ec_X = 200, ec_Y = 8\<rparr>],
              RSAs = [\<lparr>rsa_N = 6, rsa_E = 65537\<rparr>], Secrets = []\<rparr>"
  have ob: "openBlock sample_deps [] ?block = Inr ?block"
    by (simp add: openBlock_def sample_deps_def)
  have pk: "x509_ParseECPrivateKey sample_deps [200, 8, 7] = Inr ?priv"
    by (simp add: sample_deps_def)
  have cons: "pem_Decode_consumes sample_deps"
    by (auto simp: pem_Decode_consumes_def sample_deps_def elim!: sample_Decode.elims
             split: if_splits)
  have run: "LoadPEM sample_deps empty_register [3, 0, 3, 200, 8, 7, 4, 0, 2, 6, 3] []
               = Some (?r', 2, None)"
    by (simp add: LoadPEM_def LoadPEM_loop.simps loadBlock_def openBlock_def switchType_def
        sample_deps_def empty_register_def sample_type_def)
  from ob pk cons run
    register_keeps_public_part_only [of ?block sample_deps "[]" ?block ?priv empty_register]
    register_keeps_public_part_only [where d = sample_deps and r = empty_register
      and data = "[3, 0, 3, 200, 8, 7, 4, 0, 2, 6, 3]" and password = "[]"
      and r' = ?r' and n = 2 and e = None]
  show ?thesis by (simp add: empty_register_def)
qed

text \<open>
  Claim C4 fails on the code: \<open>n\<close> counts blocks, not credentials. One certificate block
  with two certificates appends two keys and returns 1; a certificate block whose second
  certificate has an unsupported key appends the first key and returns 0 with the error.
\<close>

theorem LoadPEM_counts_blocks:
  "LoadPEM sample_deps empty_register [1, 0, 2, 10, 12] [] =
     Some (\<lparr>ECDSAs = [],
            RSAs = [\<lparr>rsa_N = 10, rsa_E = 65537\<rparr>, \<lparr>rsa_N = 12, rsa_E = 65537\<rparr>],
            Secrets = []\<rparr>, 1, None)
   \<and> credentials \<lparr>ECDSAs = [],
                    RSAs = [\<lparr>rsa_N = 10, rsa_E = 65537\<rparr>, \<lparr>rsa_N = 12, rsa_E = 65537\<rparr>],
                    Secrets = []\<rparr> = credentials empty_register + 2
   \<and> LoadPEM sample_deps empty_register [1, 0, 2, 10, 0] [] =
       Some (\<lparr>ECDSAs = [], RSAs = [\<lparr>rsa_N = 10, rsa_E = 65537\<rparr>], Secrets = []\<rparr>,
             0, Some (errUnsupportedKeyType ''ed25519.PublicKey''))"
  by (simp add: LoadPEM_def LoadPEM_loop.simps loadBlock_def openBlock_def switchType_def
      sample_deps_def empty_register_def sample_type_def sample_key_def credentials_def)

end
